theory Spec2Isabelle
  imports Main
begin

section \<open>Python values, exceptions and the outside world\<close>

text \<open>
  The class \<open>Azkaban\<close> of \<open>azkaban_cli/azkaban.py\<close> keeps a host and a session id, sends
  four kinds of requests through the module \<open>azkaban_cli.api\<close> and reads the JSON bodies
  that come back. The values it stores and reads are Python objects decoded from JSON,
  so they are modelled by a datatype of such objects. JSON numbers with a fractional part
  are left out. A \<open>string\<close> is a list of bytes; a Python text with code points beyond ASCII
  is its UTF-8 encoding, in which the byte of \<open>/\<close> never occurs inside a longer sequence.
\<close>

datatype pyval =
    PNone
  | PBool bool
  | PInt int
  | PStr string
  | PList "pyval list"
  | PDict "(string \<times> pyval) list"

text \<open>Python's truth test, as used by \<open>if not x\<close>.\<close>

fun truthy :: "pyval \<Rightarrow> bool" where
  "truthy PNone = False"
| "truthy (PBool b) = b"
| "truthy (PInt n) = (n \<noteq> 0)"
| "truthy (PStr s) = (s \<noteq> [])"
| "truthy (PList xs) = (xs \<noteq> [])"
| "truthy (PDict kvs) = (kvs \<noteq> [])"

datatype exn =
    ConnectionError
  | KeyError string
  | AttributeError
  | TypeError
  | FileNotFoundError string
  | NotADirectoryError string
  | OtherError string

text \<open>\<open>d.keys()\<close> and \<open>d[k]\<close>: only a dict has keys; a missing key raises \<open>KeyError\<close>.\<close>

fun keys :: "pyval \<Rightarrow> exn + string list" where
  "keys (PDict kvs) = Inr (map fst kvs)"
| "keys _ = Inl AttributeError"

fun getitem :: "pyval \<Rightarrow> string \<Rightarrow> exn + pyval" where
  "getitem (PDict kvs) k = (case map_of kvs k of None \<Rightarrow> Inl (KeyError k) | Some v \<Rightarrow> Inr v)"
| "getitem _ k = Inl TypeError"

text \<open>
  The request layer (\<open>azkaban_cli.api\<close>) is a parameter of every operation: a function
  from the request that is made to what \<open>api.xxx_request(...).json()\<close> gives back, which
  is either an exception or the decoded body.
\<close>

datatype request =
    LoginRequest string string string
  | UploadRequest pyval pyval string string
  | ScheduleRequest pyval pyval string string string
  | ExecuteRequest pyval pyval string string

datatype reply = Raises exn | Json pyval

type_synonym api = "request \<Rightarrow> reply"

text \<open>
  What an operation does to the outside is recorded in order: calls of the request layer,
  archives created, files removed, and log records (\<open>logging.error\<close> with the object that
  is logged, \<open>logging.info\<close> with the format string and its arguments).
\<close>

datatype event =
    Call request
  | Archived string string
  | Removed string
  | LogError pyval
  | LogInfo string "pyval list"

record world =
  trace :: "event list"
  files :: "string set"
  dirs :: "string set"
  cwd :: string

definition emit :: "event \<Rightarrow> world \<Rightarrow> world" where
  "emit e w = w\<lparr>trace := trace w @ [e]\<rparr>"

fun requests_of :: "event list \<Rightarrow> request list" where
  "requests_of [] = []"
| "requests_of (Call r # es) = r # requests_of es"
| "requests_of (e # es) = requests_of es"

definition calls :: "world \<Rightarrow> request list" where
  "calls w = requests_of (trace w)"

fun is_log :: "event \<Rightarrow> bool" where
  "is_log (LogError v) = True"
| "is_log (LogInfo f args) = True"
| "is_log e = False"

section \<open>String and path functions of the Python library\<close>

definition endswith :: "string \<Rightarrow> string \<Rightarrow> bool" where
  "endswith s suf = (length suf \<le> length s \<and> drop (length s - length suf) s = suf)"

definition startswith :: "string \<Rightarrow> string \<Rightarrow> bool" where
  "startswith s pre = (take (length pre) s = pre)"

text \<open>\<open>s.split('/')\<close> and \<open>'/'.join(comps)\<close>.\<close>

fun split_sep :: "string \<Rightarrow> string list" where
  "split_sep [] = [] # []"
| "split_sep (c # cs) =
     (if c = CHR ''/'' then [] # split_sep cs
      else (case split_sep cs of [] \<Rightarrow> [c] # [] | x # xs \<Rightarrow> (c # x) # xs))"

fun join_sep :: "string list \<Rightarrow> string" where
  "join_sep [] = []"
| "join_sep [x] = x"
| "join_sep (x # xs) = x @ ''/'' @ join_sep xs"

text \<open>
  \<open>posixpath.basename\<close>, \<open>posixpath.join\<close> (two arguments), \<open>posixpath.normpath\<close> and
  \<open>posixpath.abspath\<close>, with the current directory read from the world.
\<close>

definition basename :: "string \<Rightarrow> string" where
  "basename p = rev (takeWhile (\<lambda>c. c \<noteq> CHR ''/'') (rev p))"

definition path_join :: "string \<Rightarrow> string \<Rightarrow> string" where
  "path_join a b =
     (if startswith b ''/'' then b
      else if a = [] \<or> endswith a ''/'' then a @ b
      else a @ ''/'' @ b)"

definition norm_step :: "nat \<Rightarrow> string list \<Rightarrow> string \<Rightarrow> string list" where
  "norm_step initial_slashes new_comps cmp =
     (if cmp = [] \<or> cmp = ''.'' then new_comps
      else if cmp \<noteq> ''..'' \<or> (initial_slashes = 0 \<and> new_comps = [])
                \<or> (new_comps \<noteq> [] \<and> last new_comps = ''..'')
           then new_comps @ [cmp]
      else if new_comps \<noteq> [] then butlast new_comps
      else new_comps)"

definition normpath :: "string \<Rightarrow> string" where
  "normpath path =
     (if path = [] then ''.''
      else
        let initial_slashes =
              (if startswith path ''/''
               then (if startswith path ''//'' \<and> \<not> startswith path ''///'' then 2 else 1)
               else (0::nat));
            comps = foldl (norm_step initial_slashes) [] (split_sep path);
            p = replicate initial_slashes (CHR ''/'') @ join_sep comps
        in if p = [] then ''.'' else p)"

definition abspath :: "string \<Rightarrow> string \<Rightarrow> string" where
  "abspath cur path =
     (if \<not> startswith path ''/'' then normpath (path_join cur path) else normpath path)"

text \<open>
  The sets \<open>dirs\<close> and \<open>files\<close> of a world hold the path texts that name a directory and
  a regular file. For a path that does not name a directory the system gives one of two
  answers: when a regular file stands at the path, or at a leading part of the path cut
  before a slash, the path is "not a directory"; otherwise nothing is there.
  \<open>leading_parts\<close> lists the path and its leading parts.
\<close>

fun leading_parts :: "string \<Rightarrow> string list" where
  "leading_parts [] = [] # []"
| "leading_parts (c # cs) =
     (if c = CHR ''/'' then [] # map ((#) c) (leading_parts cs)
      else map ((#) c) (leading_parts cs))"

definition not_a_directory :: "world \<Rightarrow> string \<Rightarrow> bool" where
  "not_a_directory w p = list_ex (\<lambda>q. q \<in> files w) (leading_parts p)"

text \<open>
  \<open>shutil.make_archive(base_name, 'zip', root_dir)\<close>. When \<open>root_dir\<close> is a directory it
  writes the archive and returns its name. When \<open>root_dir\<close> is not a directory it raises
  \<open>NotADirectoryError\<close>, which is not a \<open>FileNotFoundError\<close>; when nothing is there it
  raises \<open>FileNotFoundError\<close>. Failures for other reasons, such as missing permissions,
  are not modelled. The name of the archive is \<open>abspath(base_name) + '.zip'\<close>, as in the
  versions of Python where \<open>make_archive\<close> changes into \<open>root_dir\<close>; later versions give
  \<open>abspath(base_name + '.zip')\<close>, which is another text only for a base name that is
  empty, \<open>.\<close>, \<open>..\<close> or ends in a slash. \<open>os.remove\<close> deletes a file that exists and
  raises otherwise. The text carried by an exception is the system's message followed by
  the path; the quotes that Python puts around the path are left out.
\<close>

definition make_archive :: "world \<Rightarrow> string \<Rightarrow> string \<Rightarrow> exn + (string \<times> world)" where
  "make_archive w base_name root_dir =
     (if root_dir \<in> dirs w
      then let filename = abspath (cwd w) base_name @ ''.zip''
           in Inr (filename, emit (Archived filename root_dir) (w\<lparr>files := insert filename (files w)\<rparr>))
      else if not_a_directory w root_dir
      then Inl (NotADirectoryError (''[Errno 20] Not a directory: '' @ root_dir))
      else Inl (FileNotFoundError (''[Errno 2] No such file or directory: '' @ root_dir)))"

definition os_remove :: "world \<Rightarrow> string \<Rightarrow> exn + world" where
  "os_remove w p =
     (if p \<in> files w
      then Inr (emit (Removed p) (w\<lparr>files := files w - {p}\<rparr>))
      else Inl (FileNotFoundError (''[Errno 2] No such file or directory: '' @ p)))"

section \<open>The class Azkaban\<close>

record azkaban =
  host :: pyval
  session_id :: pyval

text \<open>\<open>__init__\<close>: both attributes start as \<open>None\<close>.\<close>

definition init :: azkaban where
  "init = \<lparr>host = PNone, session_id = PNone\<rparr>"

text \<open>\<open>__validate_host\<close>: the loop drops the last character while the text ends in a slash.\<close>

function validate_host :: "string \<Rightarrow> string" where
  "validate_host valid_host =
     (if endswith valid_host ''/'' then validate_host (butlast valid_host) else valid_host)"
  by pat_completeness auto
termination
  by (relation "measure length") (auto simp: endswith_def)

declare validate_host.simps [simp del]

definition get_logged_session :: "azkaban \<Rightarrow> pyval" where
  "get_logged_session s = PDict [(''host'', host s), (''session_id'', session_id s)]"

definition set_logged_session :: "azkaban \<Rightarrow> pyval \<Rightarrow> pyval \<Rightarrow> azkaban" where
  "set_logged_session s h sid = s\<lparr>host := h, session_id := sid\<rparr>"

definition logout :: "azkaban \<Rightarrow> azkaban" where
  "logout s = set_logged_session s PNone PNone"

text \<open>
  Every operation returns what the method returns or raises (\<open>Inl\<close> the exception), the
  object afterwards and the world afterwards.
\<close>

type_synonym result = "(exn + bool) \<times> azkaban \<times> world"

definition outcome :: "result \<Rightarrow> exn + bool" where
  "outcome r = fst r"

definition state_after :: "result \<Rightarrow> azkaban" where
  "state_after r = fst (snd r)"

definition world_after :: "result \<Rightarrow> world" where
  "world_after r = snd (snd r)"

definition login :: "api \<Rightarrow> azkaban \<Rightarrow> world \<Rightarrow> string \<Rightarrow> string \<Rightarrow> string \<Rightarrow> result" where
  "login api s w hst user password =
     (let valid_host = validate_host hst;
          req = LoginRequest valid_host user password;
          w1 = emit (Call req) w
      in case api req of
           Raises e \<Rightarrow>
             if e = ConnectionError
             then (Inr False, s, emit (LogError (PStr ''Could not connect to host'')) w1)
             else (Inl e, s, w1)
         | Json response_json \<Rightarrow>
             (case keys response_json of
                Inl e \<Rightarrow> (Inl e, s, w1)
              | Inr ks \<Rightarrow>
                  if ''error'' \<in> set ks
                  then (case getitem response_json ''error'' of
                          Inl e \<Rightarrow> (Inl e, s, w1)
                        | Inr error_msg \<Rightarrow> (Inr False, s, emit (LogError error_msg) w1))
                  else (case getitem response_json ''session.id'' of
                          Inl e \<Rightarrow> (Inl e, s, w1)
                        | Inr sid \<Rightarrow>
                            (Inr True, set_logged_session s (PStr valid_host) sid,
                             emit (LogInfo ''Logged as %s'' [PStr user]) w1))))"

text \<open>
  \<open>upload\<close>: \<open>project\<close> and \<open>zip_name\<close> are optional texts; \<open>if not project\<close> takes the
  default both for \<open>None\<close> and for the empty text (\<open>project_used\<close>, \<open>zip_name_used\<close>). Only \<open>FileNotFoundError\<close> of
  \<open>make_archive\<close> is caught. The archive is removed after the request has returned and
  before the body is looked at. Logging an object is recorded as the format \<open>%s\<close> with
  that object.
\<close>

definition project_used :: "world \<Rightarrow> string \<Rightarrow> string option \<Rightarrow> string" where
  "project_used w path project =
     (case project of
        None \<Rightarrow> basename (abspath (cwd w) path)
      | Some p \<Rightarrow> if p = [] then basename (abspath (cwd w) path) else p)"

definition zip_name_used :: "string \<Rightarrow> string option \<Rightarrow> string" where
  "zip_name_used project zip_name =
     (case zip_name of
        None \<Rightarrow> project
      | Some z \<Rightarrow> if z = [] then project else z)"

definition upload ::
  "api \<Rightarrow> azkaban \<Rightarrow> world \<Rightarrow> string \<Rightarrow> string option \<Rightarrow> string option \<Rightarrow> result" where
  "upload api s w path project zip_name =
     (if \<not> truthy (session_id s)
      then (Inr False, s, emit (LogError (PStr ''You are not logged'')) w)
      else
        let project1 = project_used w path project;
            zip_name1 = zip_name_used project1 zip_name
        in case make_archive w zip_name1 path of
             Inl e \<Rightarrow>
               (case e of
                  FileNotFoundError m \<Rightarrow> (Inr False, s, emit (LogError (PStr m)) w)
                | _ \<Rightarrow> (Inl e, s, w))
           | Inr (zip_path, w1) \<Rightarrow>
               let req = UploadRequest (host s) (session_id s) project1 zip_path;
                   w2 = emit (Call req) w1
               in (case api req of
                    Raises e \<Rightarrow> (Inl e, s, w2)
                  | Json response_json \<Rightarrow>
                      (case os_remove w2 zip_path of
                         Inl e \<Rightarrow> (Inl e, s, w2)
                       | Inr w3 \<Rightarrow>
                           (case keys response_json of
                              Inl e \<Rightarrow> (Inl e, s, w3)
                            | Inr ks \<Rightarrow>
                                if ''error'' \<in> set ks
                                then (case getitem response_json ''error'' of
                                        Inl e \<Rightarrow> (Inl e, s, w3)
                                      | Inr error_msg \<Rightarrow> (Inr False, s, emit (LogError error_msg) w3))
                                else (case getitem response_json ''version'' of
                                        Inl e \<Rightarrow> (Inl e, s, w3)
                                      | Inr v \<Rightarrow>
                                          (Inr True, s,
                                           emit (LogInfo ''Project %s updated to version %s''
                                                   [PStr project1, v]) w3))))))"

definition schedule ::
  "api \<Rightarrow> azkaban \<Rightarrow> world \<Rightarrow> string \<Rightarrow> string \<Rightarrow> string \<Rightarrow> result" where
  "schedule api s w project flow cron =
     (if \<not> truthy (session_id s)
      then (Inr False, s, emit (LogError (PStr ''You are not logged'')) w)
      else
        let req = ScheduleRequest (host s) (session_id s) project flow cron;
            w1 = emit (Call req) w
        in case api req of
             Raises e \<Rightarrow> (Inl e, s, w1)
           | Json response_json \<Rightarrow>
               (case keys response_json of
                  Inl e \<Rightarrow> (Inl e, s, w1)
                | Inr ks \<Rightarrow>
                    if ''error'' \<in> set ks
                    then (case getitem response_json ''error'' of
                            Inl e \<Rightarrow> (Inl e, s, w1)
                          | Inr error_msg \<Rightarrow> (Inr False, s, emit (LogError error_msg) w1))
                    else (case getitem response_json ''status'' of
                            Inl e \<Rightarrow> (Inl e, s, w1)
                          | Inr status \<Rightarrow>
                              if status = PStr ''error''
                              then (case getitem response_json ''message'' of
                                      Inl e \<Rightarrow> (Inl e, s, w1)
                                    | Inr msg \<Rightarrow> (Inr False, s, emit (LogError msg) w1))
                              else (case getitem response_json ''message'' of
                                      Inl e \<Rightarrow> (Inl e, s, w1)
                                    | Inr msg \<Rightarrow>
                                        let w2 = emit (LogInfo ''%s'' [msg]) w1
                                        in (case getitem response_json ''scheduleId'' of
                                              Inl e \<Rightarrow> (Inl e, s, w2)
                                            | Inr sched \<Rightarrow>
                                                (Inr True, s,
                                                 emit (LogInfo ''scheduleId: %s'' [sched]) w2))))))"

definition execute :: "api \<Rightarrow> azkaban \<Rightarrow> world \<Rightarrow> string \<Rightarrow> string \<Rightarrow> result" where
  "execute api s w project flow =
     (if \<not> truthy (session_id s)
      then (Inr False, s, emit (LogError (PStr ''You are not logged'')) w)
      else
        let req = ExecuteRequest (host s) (session_id s) project flow;
            w1 = emit (Call req) w
        in case api req of
             Raises e \<Rightarrow> (Inl e, s, w1)
           | Json response_json \<Rightarrow>
               (case keys response_json of
                  Inl e \<Rightarrow> (Inl e, s, w1)
                | Inr ks \<Rightarrow>
                    if ''error'' \<in> set ks
                    then (case getitem response_json ''error'' of
                            Inl e \<Rightarrow> (Inl e, s, w1)
                          | Inr error_msg \<Rightarrow> (Inr False, s, emit (LogError error_msg) w1))
                    else (case getitem response_json ''message'' of
                            Inl e \<Rightarrow> (Inl e, s, w1)
                          | Inr msg \<Rightarrow> (Inr True, s, emit (LogInfo ''%s'' [msg]) w1))))"

section \<open>Reachable states\<close>

text \<open>
  The states an object can be in after any sequence of calls of its public methods,
  with any arguments, any behaviour of the request layer and any world.
\<close>

inductive reachable :: "azkaban \<Rightarrow> bool" where
  r_init: "reachable init"
| r_login: "reachable s \<Longrightarrow> reachable (state_after (login api s w hst user password))"
| r_logout: "reachable s \<Longrightarrow> reachable (logout s)"
| r_set: "reachable s \<Longrightarrow> reachable (set_logged_session s h sid)"
| r_upload: "reachable s \<Longrightarrow> reachable (state_after (upload api s w path project zip_name))"
| r_schedule: "reachable s \<Longrightarrow> reachable (state_after (schedule api s w project flow cron))"
| r_execute: "reachable s \<Longrightarrow> reachable (state_after (execute api s w project flow))"

definition paired :: "azkaban \<Rightarrow> bool" where
  "paired s = ((host s = PNone) = (session_id s = PNone))"

text \<open>
  A request layer whose login bodies never carry \<open>null\<close> as the session id, and the states
  reachable when the setter is only called with both arguments present or both absent
  and the request layer is of that kind.
\<close>

definition no_null_session :: "api \<Rightarrow> bool" where
  "no_null_session api =
     (\<forall>req kvs. api req = Json (PDict kvs) \<longrightarrow> map_of kvs ''session.id'' \<noteq> Some PNone)"

inductive reachable_paired :: "azkaban \<Rightarrow> bool" where
  rp_init: "reachable_paired init"
| rp_login: "reachable_paired s \<Longrightarrow> no_null_session api \<Longrightarrow>
     reachable_paired (state_after (login api s w hst user password))"
| rp_logout: "reachable_paired s \<Longrightarrow> reachable_paired (logout s)"
| rp_set: "reachable_paired s \<Longrightarrow> (h = PNone) = (sid = PNone) \<Longrightarrow>
     reachable_paired (set_logged_session s h sid)"
| rp_upload: "reachable_paired s \<Longrightarrow>
     reachable_paired (state_after (upload api s w path project zip_name))"
| rp_schedule: "reachable_paired s \<Longrightarrow>
     reachable_paired (state_after (schedule api s w project flow cron))"
| rp_execute: "reachable_paired s \<Longrightarrow>
     reachable_paired (state_after (execute api s w project flow))"

section \<open>Concrete inputs\<close>

text \<open>
  A name that is a single path component: not empty, not \<open>.\<close> or \<open>..\<close>, without a slash.
\<close>

definition plain_name :: "string \<Rightarrow> bool" where
  "plain_name n = (n \<noteq> [] \<and> n \<noteq> ''.'' \<and> n \<noteq> ''..'' \<and> CHR ''/'' \<notin> set n)"

text \<open>
  A world in which the directory \<open>/tmp/myproj\<close> exists, one in which the regular file
  \<open>/tmp/afile\<close> exists as well, an object that holds a session,
  an object that holds a session id but no host, and request layers that always answer
  with one fixed body.
\<close>

definition ex_world :: world where
  "ex_world = \<lparr>trace = [], files = {}, dirs = {''/tmp/myproj''}, cwd = ''/home/u''\<rparr>"

definition ex_file_world :: world where
  "ex_file_world = \<lparr>trace = [], files = {''/tmp/afile''}, dirs = {''/tmp/myproj''},
                     cwd = ''/home/u''\<rparr>"

definition ex_logged :: azkaban where
  "ex_logged = \<lparr>host = PStr ''http://old'', session_id = PStr ''s1''\<rparr>"

definition ex_no_host :: azkaban where
  "ex_no_host = \<lparr>host = PNone, session_id = PStr ''s1''\<rparr>"

definition ex_empty_id :: azkaban where
  "ex_empty_id = \<lparr>host = PStr ''http://old'', session_id = PStr []\<rparr>"

definition api_error :: api where
  "api_error req = Json (PDict [(''error'', PStr ''Incorrect Login.'')])"

definition api_session :: api where
  "api_session req = Json (PDict [(''session.id'', PStr ''abc123'')])"

definition api_bad_cron :: api where
  "api_bad_cron req = Json (PDict [(''status'', PStr ''error''), (''message'', PStr ''bad cron'')])"

definition api_version :: api where
  "api_version req = Json (PDict [(''version'', PStr ''3'')])"

definition api_empty :: api where
  "api_empty req = Json (PDict [])"

section \<open>Auxiliary facts\<close>

lemma requests_of_append: "requests_of (xs @ ys) = requests_of xs @ requests_of ys"
  by (induction xs rule: requests_of.induct) simp_all

lemma requests_of_logs: "list_all is_log es \<Longrightarrow> requests_of es = []"
  by (induction es rule: requests_of.induct) simp_all

lemma calls_emit:
  "calls (emit (Call r) w) = calls w @ [r]"
  "calls (emit (LogError v) w) = calls w"
  "calls (emit (LogInfo f args) w) = calls w"
  "calls (emit (Archived zp root) w) = calls w"
  "calls (emit (Removed zp) w) = calls w"
  by (simp_all add: calls_def emit_def requests_of_append)

lemma emit_fields:
  "trace (emit e w) = trace w @ [e]"
  "files (emit e w) = files w"
  "dirs (emit e w) = dirs w"
  "cwd (emit e w) = cwd w"
  by (simp_all add: emit_def)

lemma key_present: "k \<in> fst ` set kvs \<Longrightarrow> \<exists>v. map_of kvs k = Some v"
  by (cases "map_of kvs k") (auto simp: map_of_eq_None_iff)

lemma key_absent: "k \<notin> fst ` set kvs \<Longrightarrow> map_of kvs k = None"
  by (simp add: map_of_eq_None_iff)

lemma endswith_slash: "endswith s ''/'' = (s \<noteq> [] \<and> last s = CHR ''/'')"
  by (cases s rule: rev_cases) (auto simp: endswith_def)

lemma validate_host_dropWhile:
  "validate_host h = rev (dropWhile (\<lambda>c. c = CHR ''/'') (rev h))"
proof (induction h rule: validate_host.induct)
  case (1 h)
  show ?case
  proof (cases "endswith h ''/''")
    case True
    then obtain t where h: "h = t @ ''/''"
      by (cases h rule: rev_cases) (auto simp: endswith_def)
    from True 1 have "validate_host h = rev (dropWhile (\<lambda>c. c = CHR ''/'') (rev (butlast h)))"
      by (subst validate_host.simps) simp
    then show ?thesis using h by simp
  next
    case False
    then have "h = [] \<or> last h \<noteq> CHR ''/''"
      by (simp add: endswith_slash)
    then have "dropWhile (\<lambda>c. c = CHR ''/'') (rev h) = rev h"
      by (cases h rule: rev_cases) auto
    with False show ?thesis by (subst validate_host.simps) simp
  qed
qed

section \<open>Host normalization\<close>

text \<open>
  C2. \<open>__validate_host\<close> removes every trailing slash and nothing else: the input is the
  result followed by some number of slashes, the result does not end in a slash, and an
  input that does not end in a slash is returned as it is.
\<close>

theorem validate_host_strips:
  "(\<exists>n. h = validate_host h @ replicate n (CHR ''/''))
   \<and> \<not> endswith (validate_host h) ''/''
   \<and> (\<not> endswith h ''/'' \<longrightarrow> validate_host h = h)"
proof (intro conjI impI)
  let ?sl = "\<lambda>c. c = CHR ''/''"
  have "h = rev (dropWhile ?sl (rev h)) @ rev (takeWhile ?sl (rev h))"
    by (metis rev_append rev_rev_ident takeWhile_dropWhile_id)
  moreover have "takeWhile ?sl (rev h) = replicate (length (takeWhile ?sl (rev h))) (CHR ''/'')"
    by (rule replicate_length_same [symmetric]) (auto dest: set_takeWhileD)
  ultimately have "h = validate_host h @ replicate (length (takeWhile ?sl (rev h))) (CHR ''/'')"
    by (metis validate_host_dropWhile rev_replicate)
  then show "\<exists>n. h = validate_host h @ replicate n (CHR ''/'')"
    by (rule exI [of "\<lambda>n. h = validate_host h @ replicate n (CHR ''/'')"])
next
  show "\<not> endswith (validate_host h) ''/''"
    unfolding validate_host_dropWhile endswith_slash
    by (metis (mono_tags, lifting) hd_dropWhile hd_rev rev_is_Nil_conv rev_rev_ident)
next
  assume "\<not> endswith h ''/''"
  then show "validate_host h = h" by (subst validate_host.simps) simp
qed

theorem validate_host_strips_witness:
  "\<not> endswith ''http://host'' ''/''
   \<and> validate_host ''http://host'' = ''http://host''
   \<and> \<not> endswith (validate_host ''http://host///'') ''/''"
  using validate_host_strips [of "''http://host''"] validate_host_strips [of "''http://host///''"]
  by (simp add: endswith_def)

section \<open>Login\<close>

text \<open>
  C1. Login is atomic. When the login request raises a connection error, or the body is
  an object with the key \<open>error\<close>, \<open>login\<close> returns \<open>False\<close> and the stored host and
  session id are what they were before the call.
\<close>

theorem login_atomic:
  assumes "api (LoginRequest (validate_host hst) user password) = Raises ConnectionError
           \<or> (\<exists>kvs. api (LoginRequest (validate_host hst) user password) = Json (PDict kvs)
                   \<and> ''error'' \<in> fst ` set kvs)"
  shows "outcome (login api s w hst user password) = Inr False
         \<and> state_after (login api s w hst user password) = s
         \<and> get_logged_session (state_after (login api s w hst user password))
             = get_logged_session s"
  using assms
proof (rule disjE)
  assume "api (LoginRequest (validate_host hst) user password) = Raises ConnectionError"
  then show ?thesis
    by (simp add: login_def outcome_def state_after_def Let_def)
next
  assume "\<exists>kvs. api (LoginRequest (validate_host hst) user password) = Json (PDict kvs)
                   \<and> ''error'' \<in> fst ` set kvs"
  then obtain kvs where rk: "api (LoginRequest (validate_host hst) user password) = Json (PDict kvs)
                   \<and> ''error'' \<in> fst ` set kvs" ..
  then have r: "api (LoginRequest (validate_host hst) user password) = Json (PDict kvs)"
    and k: "''error'' \<in> fst ` set kvs" by simp_all
  from key_present [OF k] obtain v where "map_of kvs ''error'' = Some v" ..
  with r k show ?thesis
    by (simp add: login_def outcome_def state_after_def Let_def)
qed

theorem login_atomic_witness:
  "(\<exists>kvs. api_error (LoginRequest (validate_host ''http://new/'') ''u'' ''p'') = Json (PDict kvs)
          \<and> ''error'' \<in> fst ` set kvs)
   \<and> outcome (login api_error ex_logged ex_world ''http://new/'' ''u'' ''p'') = Inr False
   \<and> state_after (login api_error ex_logged ex_world ''http://new/'' ''u'' ''p'') = ex_logged"
proof -
  have e: "\<exists>kvs. api_error (LoginRequest (validate_host ''http://new/'') ''u'' ''p'') = Json (PDict kvs)
                   \<and> ''error'' \<in> fst ` set kvs"
    by (rule exI [of _ "[(''error'', PStr ''Incorrect Login.'')]"]) (simp add: api_error_def)
  then have h: "api_error (LoginRequest (validate_host ''http://new/'') ''u'' ''p'')
                  = Raises ConnectionError
           \<or> (\<exists>kvs. api_error (LoginRequest (validate_host ''http://new/'') ''u'' ''p'')
                       = Json (PDict kvs)
                   \<and> ''error'' \<in> fst ` set kvs)"
    by (rule disjI2)
  have "outcome (login api_error ex_logged ex_world ''http://new/'' ''u'' ''p'') = Inr False
   \<and> state_after (login api_error ex_logged ex_world ''http://new/'' ''u'' ''p'') = ex_logged"
    using login_atomic [of api_error "''http://new/''" "''u''" "''p''" ex_logged ex_world, OF h]
    by simp
  with e show ?thesis by (rule conjI)
qed

text \<open>
  C9. A login whose body is an object without the key \<open>error\<close> and with the key
  \<open>session.id\<close> returns \<open>True\<close>, and afterwards \<open>get_logged_session\<close> gives the host
  without its trailing slashes together with the session id of the body.
\<close>

theorem login_success_commits:
  assumes "api (LoginRequest (validate_host hst) user password) = Json (PDict kvs)"
    and "''error'' \<notin> fst ` set kvs"
    and "map_of kvs ''session.id'' = Some sid"
  shows "outcome (login api s w hst user password) = Inr True
         \<and> get_logged_session (state_after (login api s w hst user password))
             = PDict [(''host'', PStr (validate_host hst)), (''session_id'', sid)]"
  using assms
  by (simp add: login_def outcome_def state_after_def Let_def get_logged_session_def
      set_logged_session_def)

theorem login_success_commits_witness:
  "outcome (login api_session init ex_world ''http://host//'' ''u'' ''p'') = Inr True
   \<and> get_logged_session (state_after (login api_session init ex_world ''http://host//'' ''u'' ''p''))
       = PDict [(''host'', PStr ''http://host''), (''session_id'', PStr ''abc123'')]"
proof -
  have v: "validate_host ''http://host//'' = ''http://host''"
    by (simp add: validate_host_dropWhile)
  have a: "api_session (LoginRequest (validate_host ''http://host//'') ''u'' ''p'')
             = Json (PDict [(''session.id'', PStr ''abc123'')])"
    by (simp add: api_session_def)
  have b: "''error'' \<notin> fst ` set [(''session.id'', PStr ''abc123'')]" by simp
  have c: "map_of [(''session.id'', PStr ''abc123'')] ''session.id'' = Some (PStr ''abc123'')"
    by simp
  from login_success_commits [of api_session "''http://host//''" "''u''" "''p''" _ _ init ex_world,
      OF a b c]
  show ?thesis unfolding v .
qed

section \<open>The guard and the failure channels of schedule\<close>

text \<open>
  C3. With no session id stored, \<open>upload\<close>, \<open>schedule\<close> and \<open>execute\<close> return \<open>False\<close> and
  the request layer is not called: the calls made are those made before.
\<close>

theorem guarded_reject_logged_out:
  assumes "session_id s = PNone"
  shows "outcome (upload api s w path project zip_name) = Inr False
         \<and> calls (world_after (upload api s w path project zip_name)) = calls w
         \<and> outcome (schedule api s w proj flow cron) = Inr False
         \<and> calls (world_after (schedule api s w proj flow cron)) = calls w
         \<and> outcome (execute api s w proj flow) = Inr False
         \<and> calls (world_after (execute api s w proj flow)) = calls w"
  using assms
  by (simp add: upload_def schedule_def execute_def outcome_def world_after_def calls_emit)

theorem guarded_reject_logged_out_witness:
  "session_id init = PNone
   \<and> outcome (upload api_version init ex_world ''/tmp/myproj'' None None) = Inr False
   \<and> calls (world_after (upload api_version init ex_world ''/tmp/myproj'' None None)) = []
   \<and> outcome (schedule api_version init ex_world ''p'' ''f'' ''0 0 * * * ?'') = Inr False
   \<and> calls (world_after (schedule api_version init ex_world ''p'' ''f'' ''0 0 * * * ?'')) = []
   \<and> outcome (execute api_version init ex_world ''p'' ''f'') = Inr False
   \<and> calls (world_after (execute api_version init ex_world ''p'' ''f'')) = []"
proof -
  have i: "session_id init = PNone" by (simp add: init_def)
  have c: "calls ex_world = []" by (simp add: calls_def ex_world_def)
  from guarded_reject_logged_out [OF i, of api_version ex_world "''/tmp/myproj''" None None
      "''p''" "''f''" "''0 0 * * * ?''"] i
  show ?thesis unfolding c by simp
qed

text \<open>
  C6. In a state that holds a session, \<open>schedule\<close> returns \<open>False\<close> when the body has the
  key \<open>error\<close>, and also when it has no such key but its \<open>status\<close> is the text \<open>error\<close>; in
  the second case the \<open>message\<close> of the body is what is logged as an error. It returns
  \<open>True\<close> only when the body has no key \<open>error\<close> and its \<open>status\<close> is not \<open>error\<close>.
\<close>

theorem schedule_dual_failure:
  assumes "truthy (session_id s)"
    and "api (ScheduleRequest (host s) (session_id s) project flow cron) = Json (PDict kvs)"
  shows "(''error'' \<in> fst ` set kvs \<longrightarrow> outcome (schedule api s w project flow cron) = Inr False)
       \<and> (''error'' \<notin> fst ` set kvs \<and> map_of kvs ''status'' = Some (PStr ''error'')
            \<and> map_of kvs ''message'' = Some msg \<longrightarrow>
            outcome (schedule api s w project flow cron) = Inr False
            \<and> trace (world_after (schedule api s w project flow cron))
                = trace w @ [Call (ScheduleRequest (host s) (session_id s) project flow cron),
                             LogError msg])
       \<and> (outcome (schedule api s w project flow cron) = Inr True \<longrightarrow>
            ''error'' \<notin> fst ` set kvs \<and> map_of kvs ''status'' \<noteq> Some (PStr ''error''))"
proof (intro conjI impI)
  assume k: "''error'' \<in> fst ` set kvs"
  from key_present [OF k] obtain v where "map_of kvs ''error'' = Some v" ..
  with assms k show "outcome (schedule api s w project flow cron) = Inr False"
    by (simp add: schedule_def outcome_def Let_def)
next
  assume h: "''error'' \<notin> fst ` set kvs \<and> map_of kvs ''status'' = Some (PStr ''error'')
            \<and> map_of kvs ''message'' = Some msg"
  with assms show "outcome (schedule api s w project flow cron) = Inr False"
    by (simp add: schedule_def outcome_def Let_def)
  from h assms show "trace (world_after (schedule api s w project flow cron))
                = trace w @ [Call (ScheduleRequest (host s) (session_id s) project flow cron),
                             LogError msg]"
    by (simp add: schedule_def world_after_def Let_def emit_fields)
next
  assume t: "outcome (schedule api s w project flow cron) = Inr True"
  show ne: "''error'' \<notin> fst ` set kvs"
  proof
    assume k: "''error'' \<in> fst ` set kvs"
    from key_present [OF k] obtain v where "map_of kvs ''error'' = Some v" ..
    with assms k have "outcome (schedule api s w project flow cron) = Inr False"
      by (simp add: schedule_def outcome_def Let_def)
    with t show False by simp
  qed
  show "map_of kvs ''status'' \<noteq> Some (PStr ''error'')"
  proof
    assume st: "map_of kvs ''status'' = Some (PStr ''error'')"
    have "outcome (schedule api s w project flow cron) \<noteq> Inr True"
      using assms ne st
      by (cases "map_of kvs ''message''") (simp_all add: schedule_def outcome_def Let_def)
    with t show False by simp
  qed
qed

theorem schedule_dual_failure_witness:
  "truthy (session_id ex_logged)
   \<and> outcome (schedule api_bad_cron ex_logged ex_world ''p'' ''f'' ''x'') = Inr False
   \<and> trace (world_after (schedule api_bad_cron ex_logged ex_world ''p'' ''f'' ''x''))
       = [Call (ScheduleRequest (PStr ''http://old'') (PStr ''s1'') ''p'' ''f'' ''x''),
          LogError (PStr ''bad cron'')]
   \<and> outcome (schedule api_error ex_logged ex_world ''p'' ''f'' ''x'') = Inr False"
proof -
  have t: "truthy (session_id ex_logged)" by (simp add: ex_logged_def)
  have a: "api_bad_cron (ScheduleRequest (host ex_logged) (session_id ex_logged) ''p'' ''f'' ''x'')
             = Json (PDict [(''status'', PStr ''error''), (''message'', PStr ''bad cron'')])"
    by (simp add: api_bad_cron_def)
  have b: "api_error (ScheduleRequest (host ex_logged) (session_id ex_logged) ''p'' ''f'' ''x'')
             = Json (PDict [(''error'', PStr ''Incorrect Login.'')])"
    by (simp add: api_error_def)
  have hs: "host ex_logged = PStr ''http://old''" "session_id ex_logged = PStr ''s1''"
    "trace ex_world = []"
    by (simp_all add: ex_logged_def ex_world_def)
  from schedule_dual_failure [where api = api_bad_cron and s = ex_logged and w = ex_world
         and msg = "PStr ''bad cron''", OF t a]
       schedule_dual_failure [where api = api_error and s = ex_logged and w = ex_world
         and msg = "PStr ''bad cron''", OF t b] t
  show ?thesis unfolding hs by simp
qed

section \<open>Upload\<close>

lemma make_archive_ok:
  "root_dir \<in> dirs w \<Longrightarrow>
   make_archive w base_name root_dir
     = Inr (abspath (cwd w) base_name @ ''.zip'',
            emit (Archived (abspath (cwd w) base_name @ ''.zip'') root_dir)
              (w\<lparr>files := insert (abspath (cwd w) base_name @ ''.zip'') (files w)\<rparr>))"
  by (simp add: make_archive_def Let_def)

lemma make_archive_Inr:
  assumes "make_archive w base_name root_dir = Inr (zip_path, w1)"
  shows "root_dir \<in> dirs w" and "zip_path = abspath (cwd w) base_name @ ''.zip''"
proof -
  show d: "root_dir \<in> dirs w"
  proof (rule ccontr)
    assume "root_dir \<notin> dirs w"
    with assms show False
      by (cases "not_a_directory w root_dir") (simp_all add: make_archive_def)
  qed
  from assms show "zip_path = abspath (cwd w) base_name @ ''.zip''"
    unfolding make_archive_ok [OF d] by simp
qed

text \<open>What is left of \<open>upload\<close> once the archive has been removed: only log records.\<close>

lemma upload_tail_logs:
  assumes r_def: "r = (case keys response_json of
                              Inl e \<Rightarrow> (Inl e, s, w3)
                            | Inr ks \<Rightarrow>
                                if ''error'' \<in> set ks
                                then (case getitem response_json ''error'' of
                                        Inl e \<Rightarrow> (Inl e, s, w3)
                                      | Inr error_msg \<Rightarrow> (Inr False, s, emit (LogError error_msg) w3))
                                else (case getitem response_json ''version'' of
                                        Inl e \<Rightarrow> (Inl e, s, w3)
                                      | Inr v \<Rightarrow>
                                          (Inr True, s,
                                           emit (LogInfo ''Project %s updated to version %s''
                                                   [PStr project1, v]) w3)))"
  shows "files (world_after r) = files w3
         \<and> (\<exists>rest. trace (world_after r) = trace w3 @ rest \<and> list_all is_log rest)"
proof (cases "keys response_json")
  case (Inl e)
  then show ?thesis by (simp add: r_def world_after_def)
next
  case (Inr ks)
  show ?thesis
  proof (cases "''error'' \<in> set ks")
    case True
    with Inr show ?thesis
      by (cases "getitem response_json ''error''")
         (simp_all add: r_def world_after_def emit_fields)
  next
    case False
    with Inr show ?thesis
      by (cases "getitem response_json ''version''")
         (simp_all add: r_def world_after_def emit_fields)
  qed
qed

lemma upload_json:
  assumes t: "truthy (session_id s)" and d: "path \<in> dirs w"
    and zp: "zp = abspath (cwd w) (zip_name_used (project_used w path project) zip_name) @ ''.zip''"
    and a: "api (UploadRequest (host s) (session_id s) (project_used w path project) zp)
           = Json response_json"
  shows "zp \<notin> files (world_after (upload api s w path project zip_name))
       \<and> (\<exists>rest. trace (world_after (upload api s w path project zip_name))
                  = trace w @ [Archived zp path,
                               Call (UploadRequest (host s) (session_id s)
                                       (project_used w path project) zp),
                               Removed zp] @ rest
                \<and> list_all is_log rest)"
proof -
  let ?req = "UploadRequest (host s) (session_id s) (project_used w path project) zp"
  let ?w1 = "emit (Archived zp path) (w\<lparr>files := insert zp (files w)\<rparr>)"
  let ?w3 = "emit (Removed zp) ((emit (Call ?req) ?w1)\<lparr>files := files ?w1 - {zp}\<rparr>)"
  have ma: "make_archive w (zip_name_used (project_used w path project) zip_name) path
              = Inr (zp, ?w1)"
    unfolding zp by (rule make_archive_ok [OF d])
  have rm: "os_remove (emit (Call ?req) ?w1) zp = Inr ?w3"
    by (simp add: os_remove_def emit_fields)
  have f3: "zp \<notin> files ?w3" by (simp add: emit_fields)
  have t3: "trace ?w3 = trace w @ [Archived zp path, Call ?req, Removed zp]"
    by (simp add: emit_fields)
  from t a have "upload api s w path project zip_name =
     (case keys response_json of
                              Inl e \<Rightarrow> (Inl e, s, ?w3)
                            | Inr ks \<Rightarrow>
                                if ''error'' \<in> set ks
                                then (case getitem response_json ''error'' of
                                        Inl e \<Rightarrow> (Inl e, s, ?w3)
                                      | Inr error_msg \<Rightarrow> (Inr False, s, emit (LogError error_msg) ?w3))
                                else (case getitem response_json ''version'' of
                                        Inl e \<Rightarrow> (Inl e, s, ?w3)
                                      | Inr v \<Rightarrow>
                                          (Inr True, s,
                                           emit (LogInfo ''Project %s updated to version %s''
                                                   [PStr (project_used w path project), v]) ?w3)))"
    unfolding upload_def Let_def ma by (simp add: rm)
  from upload_tail_logs [OF this]
  have "files (world_after (upload api s w path project zip_name)) = files ?w3
         \<and> (\<exists>rest. trace (world_after (upload api s w path project zip_name)) = trace ?w3 @ rest
                \<and> list_all is_log rest)" .
  with f3 t3 show ?thesis by simp
qed

lemma upload_raises:
  assumes t: "truthy (session_id s)" and d: "path \<in> dirs w"
    and zp: "zp = abspath (cwd w) (zip_name_used (project_used w path project) zip_name) @ ''.zip''"
    and a: "api (UploadRequest (host s) (session_id s) (project_used w path project) zp)
           = Raises e"
  shows "trace (world_after (upload api s w path project zip_name))
           = trace w @ [Archived zp path,
                        Call (UploadRequest (host s) (session_id s)
                                (project_used w path project) zp)]"
proof -
  let ?w1 = "emit (Archived zp path) (w\<lparr>files := insert zp (files w)\<rparr>)"
  have ma: "make_archive w (zip_name_used (project_used w path project) zip_name) path
              = Inr (zp, ?w1)"
    unfolding zp by (rule make_archive_ok [OF d])
  from t a show ?thesis
    unfolding upload_def Let_def ma by (simp add: world_after_def emit_fields)
qed

text \<open>
  Whatever the request layer answers, an upload that passes the guard and finds its
  directory first writes the archive and then calls the request layer once.
\<close>

lemma upload_trace_start:
  assumes t: "truthy (session_id s)" and d: "path \<in> dirs w"
    and zp: "zp = abspath (cwd w) (zip_name_used (project_used w path project) zip_name) @ ''.zip''"
  shows "\<exists>rest. trace (world_after (upload api s w path project zip_name))
                  = trace w @ [Archived zp path,
                               Call (UploadRequest (host s) (session_id s)
                                       (project_used w path project) zp)] @ rest
                \<and> requests_of rest = []"
proof (cases "api (UploadRequest (host s) (session_id s) (project_used w path project) zp)")
  case (Raises e)
  from upload_raises [where api = api, OF t d zp Raises] show ?thesis by simp
next
  case (Json response_json)
  from upload_json [where api = api, OF t d zp Json]
  have "\<exists>rest. trace (world_after (upload api s w path project zip_name))
                  = trace w @ [Archived zp path,
                               Call (UploadRequest (host s) (session_id s)
                                       (project_used w path project) zp),
                               Removed zp] @ rest
                \<and> list_all is_log rest" by (rule conjunct2)
  then obtain rest
    where r: "trace (world_after (upload api s w path project zip_name))
                  = trace w @ [Archived zp path,
                               Call (UploadRequest (host s) (session_id s)
                                       (project_used w path project) zp),
                               Removed zp] @ rest
                \<and> list_all is_log rest" ..
  then have "requests_of (Removed zp # rest) = []" by (simp add: requests_of_logs)
  with r show ?thesis
    by (intro exI [of _ "Removed zp # rest"]) simp
qed

text \<open>
  C7. When an upload has created its archive and the upload request has returned a body,
  the archive is removed: it is not among the files afterwards, whatever the body says
  and whether the method returns or raises while reading it. The removal comes right
  after the call of the request layer, and only log records follow it.
\<close>

theorem upload_cleanup:
  assumes "truthy (session_id s)"
    and "make_archive w (zip_name_used (project_used w path project) zip_name) path
           = Inr (zip_path, w1)"
    and "api (UploadRequest (host s) (session_id s) (project_used w path project) zip_path)
           = Json response_json"
  shows "zip_path \<notin> files (world_after (upload api s w path project zip_name))
       \<and> (\<exists>rest. trace (world_after (upload api s w path project zip_name))
                  = trace w @ [Archived zip_path path,
                               Call (UploadRequest (host s) (session_id s)
                                       (project_used w path project) zip_path),
                               Removed zip_path] @ rest
                \<and> list_all is_log rest)"
  using upload_json [where api = api, OF assms(1) make_archive_Inr(1) [OF assms(2)]
      make_archive_Inr(2) [OF assms(2)] assms(3)] .

lemma split_sep_not_Nil: "split_sep s \<noteq> []"
  by (induction s) (auto split: list.splits)

lemma split_sep_name: "CHR ''/'' \<notin> set n \<Longrightarrow> split_sep n = [n]"
  by (induction n) auto

lemma split_sep_append: "split_sep (a @ CHR ''/'' # b) = split_sep a @ split_sep b"
proof (induction a)
  case Nil
  show ?case
  proof (cases "split_sep b")
    case Nil
    then show ?thesis using split_sep_not_Nil by simp
  next
    case (Cons x xs)
    then show ?thesis by simp
  qed
next
  case (Cons c a)
  then show ?case
    by (cases "split_sep a") (auto simp: split_sep_not_Nil)
qed

lemma join_sep_snoc: "join_sep (acc @ [n]) = (if acc = [] then n else join_sep acc @ ''/'' @ n)"
  by (induction acc rule: join_sep.induct) auto

lemma takeWhile_rev_tail:
  assumes "\<forall>c\<in>set n. P c" and "y = [] \<or> \<not> P (last y)"
  shows "takeWhile P (rev n @ rev y) = rev n"
proof -
  have "takeWhile P (rev y) = []"
  proof (cases y rule: rev_cases)
    case Nil
    then show ?thesis by simp
  next
    case (snoc ys l)
    with assms(2) show ?thesis by simp
  qed
  moreover have "takeWhile P (rev n @ rev y) = rev n @ takeWhile P (rev y)"
    using assms(1) by (intro takeWhile_append2) simp
  ultimately show ?thesis by simp
qed

lemma basename_after_sep:
  assumes "CHR ''/'' \<notin> set n" and "y = [] \<or> last y = CHR ''/''"
  shows "basename (y @ n) = n"
proof -
  have "\<forall>c\<in>set n. c \<noteq> CHR ''/''" using assms(1) by auto
  moreover have "y = [] \<or> \<not> last y \<noteq> CHR ''/''" using assms(2) by simp
  ultimately have "takeWhile (\<lambda>c. c \<noteq> CHR ''/'') (rev n @ rev y) = rev n"
    by (rule takeWhile_rev_tail)
  then show ?thesis by (simp add: basename_def)
qed

lemma norm_step_name:
  "n \<noteq> [] \<Longrightarrow> n \<noteq> ''.'' \<Longrightarrow> n \<noteq> ''..'' \<Longrightarrow> norm_step k acc n = acc @ [n]"
  unfolding norm_step_def by simp

lemma normpath_last_name:
  assumes n: "plain_name n" and sp: "split_sep p = xs @ [n]"
  shows "\<exists>y. normpath p = y @ n \<and> (y = [] \<or> last y = CHR ''/'')"
proof -
  from n have n1: "n \<noteq> []" and n2: "n \<noteq> ''.''" and n3: "n \<noteq> ''..''"
    unfolding plain_name_def by simp_all
  have pne: "p \<noteq> []"
  proof
    assume "p = []"
    with sp have "xs @ [n] = [] # []" by simp
    then have "n = []" by (cases xs) simp_all
    with n1 show False by simp
  qed
  define k :: nat where "k = (if startswith p ''/''
               then (if startswith p ''//'' \<and> \<not> startswith p ''///'' then 2 else 1)
               else 0)"
  define acc where "acc = foldl (norm_step k) [] xs"
  define y where "y = replicate k (CHR ''/'') @ (if acc = [] then [] else join_sep acc @ ''/'')"
  have "foldl (norm_step k) [] (xs @ [n]) = norm_step k acc n"
    by (simp add: acc_def)
  also have "\<dots> = acc @ [n]" by (rule norm_step_name [OF n1 n2 n3])
  finally have fo: "foldl (norm_step k) [] (split_sep p) = acc @ [n]"
    by (simp add: sp)
  have js: "replicate k (CHR ''/'') @ join_sep (acc @ [n]) = y @ n"
    by (simp add: y_def join_sep_snoc)
  from n1 have yn: "y @ n \<noteq> []" by simp
  have "normpath p = (if y @ n = [] then ''.'' else y @ n)"
    unfolding normpath_def Let_def k_def [symmetric] fo js using pne by simp
  with yn have a: "normpath p = y @ n" by simp
  have b: "y = [] \<or> last y = CHR ''/''"
    by (cases k) (simp_all add: y_def)
  show ?thesis
    by (rule exI [of _ y], rule conjI [OF a b])
qed

lemma abspath_plain_name:
  assumes n: "plain_name n"
  shows "\<exists>y. abspath cur n = y @ n \<and> (y = [] \<or> last y = CHR ''/'')"
proof -
  from n have sn: "split_sep n = [n]"
    by (simp add: plain_name_def split_sep_name)
  from n have ns: "\<not> startswith n ''/''"
    by (cases n) (auto simp: startswith_def plain_name_def)
  have "\<exists>xs. split_sep (path_join cur n) = xs @ [n]"
  proof (cases "cur = [] \<or> endswith cur ''/''")
    case True
    then show ?thesis
    proof
      assume "cur = []"
      with ns sn show ?thesis by (simp add: path_join_def)
    next
      assume e: "endswith cur ''/''"
      then obtain c where c: "cur = c @ ''/''"
        by (cases cur rule: rev_cases) (auto simp: endswith_def)
      have "split_sep (c @ CHR ''/'' # n) = split_sep c @ [n]"
        by (simp add: split_sep_append sn)
      with ns e c show ?thesis by (simp add: path_join_def)
    qed
  next
    case False
    have "split_sep (cur @ CHR ''/'' # n) = split_sep cur @ [n]"
      by (simp add: split_sep_append sn)
    with ns False show ?thesis by (simp add: path_join_def)
  qed
  then obtain xs where "split_sep (path_join cur n) = xs @ [n]" ..
  from normpath_last_name [OF n this] ns show ?thesis by (simp add: abspath_def)
qed

lemma basename_archive_name:
  assumes "plain_name n"
  shows "basename (abspath cur n @ ''.zip'') = n @ ''.zip''"
proof -
  from abspath_plain_name [OF assms] obtain y
    where y: "abspath cur n = y @ n \<and> (y = [] \<or> last y = CHR ''/'')" ..
  from assms have "CHR ''/'' \<notin> set (n @ ''.zip'')" by (simp add: plain_name_def)
  with y have "basename (y @ (n @ ''.zip'')) = n @ ''.zip''" by (intro basename_after_sep) simp_all
  with y show ?thesis by simp
qed

lemma basename_example: "basename (abspath cur ''/tmp/myproj'') = ''myproj''"
  by (simp add: abspath_def startswith_def normpath_def Let_def norm_step_def basename_def)

lemma abspath_example: "abspath ''/home/u'' ''myproj'' = ''/home/u/myproj''"
  by (simp add: abspath_def path_join_def endswith_def startswith_def normpath_def Let_def
      norm_step_def)
theorem upload_cleanup_witness:
  "truthy (session_id ex_logged)
   \<and> (\<exists>w1. make_archive ex_world
              (zip_name_used (project_used ex_world ''/tmp/myproj'' None) None) ''/tmp/myproj''
            = Inr (''/home/u/myproj.zip'', w1))
   \<and> ''/home/u/myproj.zip''
        \<notin> files (world_after (upload api_error ex_logged ex_world ''/tmp/myproj'' None None))
   \<and> ''/home/u/myproj.zip''
        \<notin> files (world_after (upload api_version ex_logged ex_world ''/tmp/myproj'' None None))"
proof -
  have t: "truthy (session_id ex_logged)" by (simp add: ex_logged_def)
  have d: "''/tmp/myproj'' \<in> dirs ex_world" by (simp add: ex_world_def)
  have cw: "cwd ex_world = ''/home/u''" by (simp add: ex_world_def)
  have pu: "project_used ex_world ''/tmp/myproj'' None = ''myproj''"
    by (simp add: project_used_def basename_example)
  have zn: "zip_name_used ''myproj'' None = ''myproj''" by (simp add: zip_name_used_def)
  let ?w1 = "emit (Archived ''/home/u/myproj.zip'' ''/tmp/myproj'')
               (ex_world\<lparr>files := insert ''/home/u/myproj.zip'' (files ex_world)\<rparr>)"
  have ma: "make_archive ex_world
              (zip_name_used (project_used ex_world ''/tmp/myproj'' None) None) ''/tmp/myproj''
            = Inr (''/home/u/myproj.zip'', ?w1)"
    unfolding pu zn using make_archive_ok [OF d, of "''myproj''"]
    unfolding cw abspath_example by simp
  have a: "api_error (UploadRequest (host ex_logged) (session_id ex_logged)
                        (project_used ex_world ''/tmp/myproj'' None) ''/home/u/myproj.zip'')
             = Json (PDict [(''error'', PStr ''Incorrect Login.'')])"
    by (simp add: api_error_def)
  have b: "api_version (UploadRequest (host ex_logged) (session_id ex_logged)
                        (project_used ex_world ''/tmp/myproj'' None) ''/home/u/myproj.zip'')
             = Json (PDict [(''version'', PStr ''3'')])"
    by (simp add: api_version_def)
  have e: "\<exists>w1. make_archive ex_world
              (zip_name_used (project_used ex_world ''/tmp/myproj'' None) None) ''/tmp/myproj''
            = Inr (''/home/u/myproj.zip'', w1)"
    by (rule exI [of _ ?w1]) (rule ma)
  from upload_cleanup [where api = api_error, OF t ma a]
  have x: "''/home/u/myproj.zip''
        \<notin> files (world_after (upload api_error ex_logged ex_world ''/tmp/myproj'' None None))"
    by (rule conjunct1)
  from upload_cleanup [where api = api_version, OF t ma b]
  have y: "''/home/u/myproj.zip''
        \<notin> files (world_after (upload api_version ex_logged ex_world ''/tmp/myproj'' None None))"
    by (rule conjunct1)
  show ?thesis by (intro conjI t e x y)
qed

text \<open>
  C8. In an upload that passes the guard and finds its directory, a project that is not
  supplied is taken to be the last component of the absolute form of the path, and a zip
  name that is not supplied is the project name: the archive written is the absolute form
  of the project name with \<open>.zip\<close> added, and that project name is the one sent with the
  request. For the path \<open>/tmp/myproj\<close> the project is \<open>myproj\<close> and the archive is a file
  named \<open>myproj.zip\<close>, in whatever directory the call is made.
\<close>

theorem upload_defaulting:
  assumes "truthy (session_id s)" and "path \<in> dirs w"
  shows "(\<exists>zp rest. trace (world_after (upload api s w path None zip_name))
            = trace w @ [Archived zp path,
                         Call (UploadRequest (host s) (session_id s)
                                 (basename (abspath (cwd w) path)) zp)] @ rest)
       \<and> (\<exists>rest. trace (world_after (upload api s w path project None))
            = trace w @ [Archived (abspath (cwd w) (project_used w path project) @ ''.zip'') path,
                         Call (UploadRequest (host s) (session_id s)
                                 (project_used w path project)
                                 (abspath (cwd w) (project_used w path project) @ ''.zip''))] @ rest)
       \<and> (path = ''/tmp/myproj'' \<longrightarrow>
           (\<exists>zp rest. trace (world_after (upload api s w path None None))
              = trace w @ [Archived zp path,
                           Call (UploadRequest (host s) (session_id s) ''myproj'' zp)] @ rest
              \<and> basename zp = ''myproj.zip''))"
proof (intro conjI impI)
  define zp where
    "zp = abspath (cwd w) (zip_name_used (project_used w path None) zip_name) @ ''.zip''"
  have pn: "project_used w path None = basename (abspath (cwd w) path)"
    by (simp add: project_used_def)
  from upload_trace_start [where api = api, OF assms zp_def]
  obtain rest where "trace (world_after (upload api s w path None zip_name))
            = trace w @ [Archived zp path,
                         Call (UploadRequest (host s) (session_id s)
                                 (project_used w path None) zp)] @ rest
                \<and> requests_of rest = []" ..
  then have "trace (world_after (upload api s w path None zip_name))
            = trace w @ [Archived zp path,
                         Call (UploadRequest (host s) (session_id s)
                                 (basename (abspath (cwd w) path)) zp)] @ rest"
    unfolding pn by (rule conjunct1)
  then show "\<exists>zp rest. trace (world_after (upload api s w path None zip_name))
            = trace w @ [Archived zp path,
                         Call (UploadRequest (host s) (session_id s)
                                 (basename (abspath (cwd w) path)) zp)] @ rest"
    by (intro exI [of _ zp] exI [of _ rest])
next
  have zn: "zip_name_used (project_used w path project) None = project_used w path project"
    by (simp add: zip_name_used_def)
  have "abspath (cwd w) (project_used w path project) @ ''.zip''
          = abspath (cwd w) (zip_name_used (project_used w path project) None) @ ''.zip''"
    unfolding zn ..
  from upload_trace_start [where api = api, OF assms this]
  obtain rest where "trace (world_after (upload api s w path project None))
            = trace w @ [Archived (abspath (cwd w) (project_used w path project) @ ''.zip'') path,
                         Call (UploadRequest (host s) (session_id s)
                                 (project_used w path project)
                                 (abspath (cwd w) (project_used w path project) @ ''.zip''))] @ rest
                \<and> requests_of rest = []" ..
  then have "trace (world_after (upload api s w path project None))
            = trace w @ [Archived (abspath (cwd w) (project_used w path project) @ ''.zip'') path,
                         Call (UploadRequest (host s) (session_id s)
                                 (project_used w path project)
                                 (abspath (cwd w) (project_used w path project) @ ''.zip''))] @ rest"
    by (rule conjunct1)
  then show "\<exists>rest. trace (world_after (upload api s w path project None))
            = trace w @ [Archived (abspath (cwd w) (project_used w path project) @ ''.zip'') path,
                         Call (UploadRequest (host s) (session_id s)
                                 (project_used w path project)
                                 (abspath (cwd w) (project_used w path project) @ ''.zip''))] @ rest"
    by (intro exI [of _ rest])
next
  assume p: "path = ''/tmp/myproj''"
  define zp where "zp = abspath (cwd w) ''myproj'' @ ''.zip''"
  have pu: "project_used w path None = ''myproj''"
    unfolding p by (simp add: project_used_def basename_example)
  have zn: "zip_name_used ''myproj'' None = ''myproj''" by (simp add: zip_name_used_def)
  have z: "zp = abspath (cwd w) (zip_name_used (project_used w path None) None) @ ''.zip''"
    unfolding pu zn by (rule zp_def)
  have pl: "plain_name ''myproj''" by (simp add: plain_name_def)
  have bn: "basename zp = ''myproj.zip''"
    unfolding zp_def using basename_archive_name [OF pl, of "cwd w"] by simp
  from upload_trace_start [where api = api, OF assms z]
  obtain rest where "trace (world_after (upload api s w path None None))
            = trace w @ [Archived zp path,
                         Call (UploadRequest (host s) (session_id s)
                                 (project_used w path None) zp)] @ rest
                \<and> requests_of rest = []" ..
  then have "trace (world_after (upload api s w path None None))
            = trace w @ [Archived zp path,
                         Call (UploadRequest (host s) (session_id s) ''myproj'' zp)] @ rest"
    unfolding pu by (rule conjunct1)
  with bn have "trace (world_after (upload api s w path None None))
            = trace w @ [Archived zp path,
                         Call (UploadRequest (host s) (session_id s) ''myproj'' zp)] @ rest
          \<and> basename zp = ''myproj.zip''" by simp
  then show "\<exists>zp rest. trace (world_after (upload api s w path None None))
              = trace w @ [Archived zp path,
                           Call (UploadRequest (host s) (session_id s) ''myproj'' zp)] @ rest
              \<and> basename zp = ''myproj.zip''"
    by (intro exI [of _ zp] exI [of _ rest])
qed

theorem upload_defaulting_witness:
  "truthy (session_id ex_logged) \<and> ''/tmp/myproj'' \<in> dirs ex_world
   \<and> (\<exists>rest. trace (world_after (upload api_version ex_logged ex_world ''/tmp/myproj'' None None))
          = [Archived ''/home/u/myproj.zip'' ''/tmp/myproj'',
             Call (UploadRequest (PStr ''http://old'') (PStr ''s1'') ''myproj''
                     ''/home/u/myproj.zip'')] @ rest)
   \<and> (\<exists>zp rest. trace (world_after (upload api_version ex_logged ex_world ''/tmp/myproj'' None None))
          = trace ex_world @ [Archived zp ''/tmp/myproj'',
                Call (UploadRequest (host ex_logged) (session_id ex_logged) ''myproj'' zp)] @ rest
          \<and> basename zp = ''myproj.zip'')"
proof -
  have t: "truthy (session_id ex_logged)" by (simp add: ex_logged_def)
  have d: "''/tmp/myproj'' \<in> dirs ex_world" by (simp add: ex_world_def)
  have pu: "project_used ex_world ''/tmp/myproj'' None = ''myproj''"
    by (simp add: project_used_def basename_example)
  have hs: "host ex_logged = PStr ''http://old''" "session_id ex_logged = PStr ''s1''"
    "trace ex_world = []" "cwd ex_world = ''/home/u''"
    by (simp_all add: ex_logged_def ex_world_def)
  from upload_defaulting [where api = api_version and project = None, OF t d,
      THEN conjunct2, THEN conjunct1]
  have "\<exists>rest. trace (world_after (upload api_version ex_logged ex_world ''/tmp/myproj'' None None))
            = trace ex_world @ [Archived (abspath (cwd ex_world)
                                  (project_used ex_world ''/tmp/myproj'' None) @ ''.zip'')
                                  ''/tmp/myproj'',
                         Call (UploadRequest (host ex_logged) (session_id ex_logged)
                                 (project_used ex_world ''/tmp/myproj'' None)
                                 (abspath (cwd ex_world)
                                    (project_used ex_world ''/tmp/myproj'' None) @ ''.zip''))] @ rest" .
  then have "\<exists>rest. trace (world_after (upload api_version ex_logged ex_world ''/tmp/myproj'' None None))
          = [Archived ''/home/u/myproj.zip'' ''/tmp/myproj'',
             Call (UploadRequest (PStr ''http://old'') (PStr ''s1'') ''myproj''
                     ''/home/u/myproj.zip'')] @ rest"
    unfolding pu hs abspath_example by simp
  moreover
  from upload_defaulting [where api = api_version and project = None, OF t d,
      THEN conjunct2, THEN conjunct2, THEN mp, OF refl]
  have "\<exists>zp rest. trace (world_after (upload api_version ex_logged ex_world ''/tmp/myproj'' None None))
          = trace ex_world @ [Archived zp ''/tmp/myproj'',
                Call (UploadRequest (host ex_logged) (session_id ex_logged) ''myproj'' zp)] @ rest
          \<and> basename zp = ''myproj.zip''" .
  ultimately show ?thesis using t d by (intro conjI)
qed

section \<open>The stored pair\<close>

lemma state_after_upload: "state_after (upload api s w path project zip_name) = s"
  by (simp add: upload_def state_after_def Let_def
      split: sum.split reply.split exn.split prod.split)

lemma state_after_schedule: "state_after (schedule api s w project flow cron) = s"
  by (simp add: schedule_def state_after_def Let_def split: sum.split reply.split)

lemma state_after_execute: "state_after (execute api s w project flow) = s"
  by (simp add: execute_def state_after_def Let_def split: sum.split reply.split)

lemma login_keeps_paired:
  assumes p: "paired s" and nn: "no_null_session api"
  shows "paired (state_after (login api s w hst user password))"
proof (cases "api (LoginRequest (validate_host hst) user password)")
  case (Raises e)
  with p show ?thesis by (simp add: login_def state_after_def Let_def)
next
  case (Json response_json)
  show ?thesis
  proof (cases response_json)
    case (PDict kvs)
    show ?thesis
    proof (cases "''error'' \<in> set (map fst kvs)")
      case True
      with p Json PDict show ?thesis
        by (cases "map_of kvs ''error''") (simp_all add: login_def state_after_def Let_def)
    next
      case False
      show ?thesis
      proof (cases "map_of kvs ''session.id''")
        case None
        with p Json PDict False show ?thesis
          by (simp add: login_def state_after_def Let_def)
      next
        case (Some sid)
        from nn Json PDict have "map_of kvs ''session.id'' \<noteq> Some PNone"
          unfolding no_null_session_def by simp
        with Some have "sid \<noteq> PNone" by simp
        with Json PDict False Some show ?thesis
          by (simp add: login_def state_after_def Let_def set_logged_session_def paired_def)
      qed
    qed
  qed (use p Json in \<open>simp_all add: login_def state_after_def Let_def\<close>)
qed

text \<open>
  C4, as stated, fails: the setter stores whatever it is given, so one call with a host
  and no session id leaves the object with a host and without a session id.
\<close>

theorem session_pair_counterexample:
  "reachable (set_logged_session init (PStr ''http://host'') PNone)
   \<and> \<not> paired (set_logged_session init (PStr ''http://host'') PNone)"
proof
  show "reachable (set_logged_session init (PStr ''http://host'') PNone)"
    by (rule r_set [OF r_init])
  show "\<not> paired (set_logged_session init (PStr ''http://host'') PNone)"
    by (simp add: paired_def set_logged_session_def)
qed

text \<open>
  C4, amended. In every state reached from construction by \<open>logout\<close>, \<open>upload\<close>,
  \<open>schedule\<close>, \<open>execute\<close>, by \<open>set_logged_session\<close> with both arguments present or both
  absent, and by \<open>login\<close> against a request layer whose bodies never give \<open>null\<close> as the
  session id, the host and the session id are both present or both absent.
\<close>

theorem session_pair_restricted: "reachable_paired s \<Longrightarrow> paired s"
proof (induction rule: reachable_paired.induct)
  case rp_init
  show ?case by (simp add: paired_def init_def)
next
  case (rp_login s api w hst user password)
  then show ?case by (simp add: login_keeps_paired)
next
  case (rp_logout s)
  show ?case by (simp add: paired_def logout_def set_logged_session_def)
next
  case (rp_set s h sid)
  then show ?case by (simp add: paired_def set_logged_session_def)
next
  case (rp_upload s api w path project zip_name)
  then show ?case by (simp add: state_after_upload)
next
  case (rp_schedule s api w project flow cron)
  then show ?case by (simp add: state_after_schedule)
next
  case (rp_execute s api w project flow)
  then show ?case by (simp add: state_after_execute)
qed

theorem session_pair_restricted_witness:
  "reachable_paired (logout (state_after (login api_session init ex_world ''http://host/'' ''u'' ''p'')))
   \<and> reachable_paired (state_after (login api_session init ex_world ''http://host/'' ''u'' ''p''))
   \<and> paired (state_after (login api_session init ex_world ''http://host/'' ''u'' ''p''))
   \<and> host (state_after (login api_session init ex_world ''http://host/'' ''u'' ''p''))
        = PStr ''http://host''
   \<and> session_id (state_after (login api_session init ex_world ''http://host/'' ''u'' ''p''))
        = PStr ''abc123''"
proof -
  have nn: "no_null_session api_session"
    by (simp add: no_null_session_def api_session_def)
  have r: "reachable_paired (state_after (login api_session init ex_world ''http://host/'' ''u'' ''p''))"
    by (rule rp_login [OF rp_init nn])
  have v: "validate_host ''http://host/'' = ''http://host''"
    by (simp add: validate_host_dropWhile)
  have st: "state_after (login api_session init ex_world ''http://host/'' ''u'' ''p'')
              = \<lparr>host = PStr ''http://host'', session_id = PStr ''abc123''\<rparr>"
    by (simp add: login_def state_after_def Let_def api_session_def set_logged_session_def init_def v)
  from session_pair_restricted [OF r] r rp_logout [OF r] show ?thesis
    by (simp add: st)
qed

section \<open>Bodies that lack the expected field\<close>

text \<open>
  C5, as stated, fails: no operation checks that the field it reads is there. On the
  empty object each of them raises \<open>KeyError\<close> instead of returning \<open>False\<close>.
\<close>

theorem missing_keys_counterexample:
  "outcome (login api_empty init ex_world ''http://host'' ''u'' ''p'') = Inl (KeyError ''session.id'')
   \<and> outcome (upload api_empty ex_logged ex_world ''/tmp/myproj'' None None)
        = Inl (KeyError ''version'')
   \<and> outcome (schedule api_empty ex_logged ex_world ''p'' ''f'' ''x'') = Inl (KeyError ''status'')
   \<and> outcome (execute api_empty ex_logged ex_world ''p'' ''f'') = Inl (KeyError ''message'')"
proof (intro conjI)
  show "outcome (login api_empty init ex_world ''http://host'' ''u'' ''p'')
          = Inl (KeyError ''session.id'')"
    by (simp add: login_def outcome_def Let_def api_empty_def)
  have d: "''/tmp/myproj'' \<in> dirs ex_world" by (simp add: ex_world_def)
  show "outcome (upload api_empty ex_logged ex_world ''/tmp/myproj'' None None)
        = Inl (KeyError ''version'')"
    unfolding upload_def Let_def make_archive_ok [OF d]
    by (simp add: outcome_def api_empty_def ex_logged_def os_remove_def emit_fields)
  show "outcome (schedule api_empty ex_logged ex_world ''p'' ''f'' ''x'') = Inl (KeyError ''status'')"
    by (simp add: schedule_def outcome_def Let_def api_empty_def ex_logged_def)
  show "outcome (execute api_empty ex_logged ex_world ''p'' ''f'') = Inl (KeyError ''message'')"
    by (simp add: execute_def outcome_def Let_def api_empty_def ex_logged_def)
qed

text \<open>
  C5, amended. When the body is an object without the key \<open>error\<close> that lacks a field the
  operation reads, the operation does not return \<open>False\<close>: it raises \<open>KeyError\<close> for the
  first missing field it reads. For \<open>login\<close> that is \<open>session.id\<close>, and the stored pair is
  unchanged; for \<open>upload\<close> (once the archive is written) it is \<open>version\<close>; for \<open>schedule\<close>
  it is \<open>status\<close>, then \<open>message\<close>, then, when the status is not \<open>error\<close>, \<open>scheduleId\<close>;
  for \<open>execute\<close> it is \<open>message\<close>.
\<close>

theorem missing_keys_raise:
  assumes ne: "''error'' \<notin> fst ` set kvs"
  shows "(api (LoginRequest (validate_host hst) user password) = Json (PDict kvs)
            \<and> map_of kvs ''session.id'' = None \<longrightarrow>
          outcome (login api s w hst user password) = Inl (KeyError ''session.id'')
          \<and> state_after (login api s w hst user password) = s)
       \<and> (truthy (session_id s) \<and> path \<in> dirs w
            \<and> api (UploadRequest (host s) (session_id s) (project_used w path project)
                     (abspath (cwd w) (zip_name_used (project_used w path project) zip_name)
                        @ ''.zip''))
                = Json (PDict kvs)
            \<and> map_of kvs ''version'' = None \<longrightarrow>
          outcome (upload api s w path project zip_name) = Inl (KeyError ''version''))
       \<and> (truthy (session_id s)
            \<and> api (ScheduleRequest (host s) (session_id s) proj flow cron) = Json (PDict kvs) \<longrightarrow>
          (map_of kvs ''status'' = None \<longrightarrow>
             outcome (schedule api s w proj flow cron) = Inl (KeyError ''status''))
          \<and> (map_of kvs ''status'' = Some st \<and> map_of kvs ''message'' = None \<longrightarrow>
               outcome (schedule api s w proj flow cron) = Inl (KeyError ''message''))
          \<and> (map_of kvs ''status'' = Some st \<and> st \<noteq> PStr ''error''
                \<and> map_of kvs ''message'' = Some msg \<and> map_of kvs ''scheduleId'' = None \<longrightarrow>
               outcome (schedule api s w proj flow cron) = Inl (KeyError ''scheduleId'')))
       \<and> (truthy (session_id s)
            \<and> api (ExecuteRequest (host s) (session_id s) proj flow) = Json (PDict kvs)
            \<and> map_of kvs ''message'' = None \<longrightarrow>
          outcome (execute api s w proj flow) = Inl (KeyError ''message''))"
proof (intro conjI impI)
  assume "api (LoginRequest (validate_host hst) user password) = Json (PDict kvs)
            \<and> map_of kvs ''session.id'' = None"
  with ne show "outcome (login api s w hst user password) = Inl (KeyError ''session.id'')"
    and "state_after (login api s w hst user password) = s"
    by (simp_all add: login_def outcome_def state_after_def Let_def)
next
  assume h: "truthy (session_id s) \<and> path \<in> dirs w
            \<and> api (UploadRequest (host s) (session_id s) (project_used w path project)
                     (abspath (cwd w) (zip_name_used (project_used w path project) zip_name)
                        @ ''.zip''))
                = Json (PDict kvs)
            \<and> map_of kvs ''version'' = None"
  then have d: "path \<in> dirs w" by simp
  from h ne show "outcome (upload api s w path project zip_name) = Inl (KeyError ''version'')"
    unfolding upload_def Let_def make_archive_ok [OF d]
    by (simp add: outcome_def os_remove_def emit_fields)
next
  assume "truthy (session_id s)
            \<and> api (ScheduleRequest (host s) (session_id s) proj flow cron) = Json (PDict kvs)"
    and "map_of kvs ''status'' = None"
  with ne show "outcome (schedule api s w proj flow cron) = Inl (KeyError ''status'')"
    by (simp add: schedule_def outcome_def Let_def)
next
  assume "truthy (session_id s)
            \<and> api (ScheduleRequest (host s) (session_id s) proj flow cron) = Json (PDict kvs)"
    and "map_of kvs ''status'' = Some st \<and> map_of kvs ''message'' = None"
  with ne show "outcome (schedule api s w proj flow cron) = Inl (KeyError ''message'')"
    by (simp add: schedule_def outcome_def Let_def)
next
  assume "truthy (session_id s)
            \<and> api (ScheduleRequest (host s) (session_id s) proj flow cron) = Json (PDict kvs)"
    and "map_of kvs ''status'' = Some st \<and> st \<noteq> PStr ''error''
                \<and> map_of kvs ''message'' = Some msg \<and> map_of kvs ''scheduleId'' = None"
  with ne show "outcome (schedule api s w proj flow cron) = Inl (KeyError ''scheduleId'')"
    by (simp add: schedule_def outcome_def Let_def)
next
  assume "truthy (session_id s)
            \<and> api (ExecuteRequest (host s) (session_id s) proj flow) = Json (PDict kvs)
            \<and> map_of kvs ''message'' = None"
  with ne show "outcome (execute api s w proj flow) = Inl (KeyError ''message'')"
    by (simp add: execute_def outcome_def Let_def)
qed

theorem missing_keys_raise_witness:
  "''error'' \<notin> fst ` set [(''version'', PStr ''3'')]
   \<and> truthy (session_id ex_logged)
   \<and> map_of [(''version'', PStr ''3'')] ''session.id'' = None
   \<and> map_of [(''version'', PStr ''3'')] ''status'' = None
   \<and> map_of [(''version'', PStr ''3'')] ''message'' = None
   \<and> outcome (login api_version ex_logged ex_world ''http://new'' ''u'' ''p'')
        = Inl (KeyError ''session.id'')
   \<and> state_after (login api_version ex_logged ex_world ''http://new'' ''u'' ''p'') = ex_logged
   \<and> outcome (schedule api_version ex_logged ex_world ''p'' ''f'' ''x'') = Inl (KeyError ''status'')
   \<and> outcome (execute api_version ex_logged ex_world ''p'' ''f'') = Inl (KeyError ''message'')
   \<and> outcome (upload api_empty ex_logged ex_world ''/tmp/myproj'' None None)
        = Inl (KeyError ''version'')
   \<and> outcome (schedule (\<lambda>req. Json (PDict [(''status'', PStr ''success'')]))
                 ex_logged ex_world ''p'' ''f'' ''x'') = Inl (KeyError ''message'')
   \<and> outcome (schedule (\<lambda>req. Json (PDict [(''status'', PStr ''success''),
                                              (''message'', PStr ''ok'')]))
                 ex_logged ex_world ''p'' ''f'' ''x'') = Inl (KeyError ''scheduleId'')"
proof -
  have ne: "''error'' \<notin> fst ` set [(''version'', PStr ''3'')]" by simp
  have t: "truthy (session_id ex_logged)" by (simp add: ex_logged_def)
  have m: "map_of [(''version'', PStr ''3'')] ''session.id'' = None"
    "map_of [(''version'', PStr ''3'')] ''status'' = None"
    "map_of [(''version'', PStr ''3'')] ''message'' = None"
    by simp_all
  note th = missing_keys_raise [where api = api_version and s = ex_logged and w = ex_world
      and proj = "''p''" and flow = "''f''" and cron = "''x''" and hst = "''http://new''"
      and user = "''u''" and password = "''p''", OF ne]
  have a: "outcome (login api_version ex_logged ex_world ''http://new'' ''u'' ''p'')
        = Inl (KeyError ''session.id'')
     \<and> state_after (login api_version ex_logged ex_world ''http://new'' ''u'' ''p'') = ex_logged"
    by (rule th [THEN conjunct1, THEN mp]) (simp add: api_version_def)
  have b: "outcome (schedule api_version ex_logged ex_world ''p'' ''f'' ''x'')
             = Inl (KeyError ''status'')"
    by (rule th [THEN conjunct2, THEN conjunct2, THEN conjunct1, THEN mp, THEN conjunct1, THEN mp])
       (simp_all add: api_version_def t)
  have c: "outcome (execute api_version ex_logged ex_world ''p'' ''f'') = Inl (KeyError ''message'')"
    by (rule th [THEN conjunct2, THEN conjunct2, THEN conjunct2, THEN mp])
       (simp add: api_version_def t)
  have d: "outcome (upload api_empty ex_logged ex_world ''/tmp/myproj'' None None)
        = Inl (KeyError ''version'')"
    by (rule missing_keys_raise [where api = api_empty and kvs = "[]" and s = ex_logged
          and w = ex_world, THEN conjunct2, THEN conjunct1, THEN mp])
       (simp_all add: api_empty_def t, simp add: ex_world_def)
  have e: "outcome (schedule (\<lambda>req. Json (PDict [(''status'', PStr ''success'')]))
                 ex_logged ex_world ''p'' ''f'' ''x'') = Inl (KeyError ''message'')"
    by (rule missing_keys_raise [where kvs = "[(''status'', PStr ''success'')]"
          and st = "PStr ''success''" and s = ex_logged,
          THEN conjunct2, THEN conjunct2, THEN conjunct1, THEN mp,
          THEN conjunct2, THEN conjunct1, THEN mp])
       (simp_all add: t)
  have f: "outcome (schedule (\<lambda>req. Json (PDict [(''status'', PStr ''success''),
                                              (''message'', PStr ''ok'')]))
                 ex_logged ex_world ''p'' ''f'' ''x'') = Inl (KeyError ''scheduleId'')"
    by (rule missing_keys_raise [where kvs = "[(''status'', PStr ''success''),
                                              (''message'', PStr ''ok'')]"
          and st = "PStr ''success''" and msg = "PStr ''ok''" and s = ex_logged,
          THEN conjunct2, THEN conjunct2, THEN conjunct1, THEN mp,
          THEN conjunct2, THEN conjunct2, THEN mp])
       (simp_all add: t)
  from ne t m a b c d e f show ?thesis by (intro conjI) simp_all
qed

section \<open>What the guard tests\<close>

lemma schedule_calls:
  "truthy (session_id s) \<Longrightarrow>
   calls (world_after (schedule api s w project flow cron))
     = calls w @ [ScheduleRequest (host s) (session_id s) project flow cron]"
  by (simp add: schedule_def world_after_def Let_def calls_emit split: sum.split reply.split)

lemma execute_calls:
  "truthy (session_id s) \<Longrightarrow>
   calls (world_after (execute api s w project flow))
     = calls w @ [ExecuteRequest (host s) (session_id s) project flow]"
  by (simp add: execute_def world_after_def Let_def calls_emit split: sum.split reply.split)

lemma upload_calls:
  assumes t: "truthy (session_id s)" and d: "path \<in> dirs w"
  shows "calls (world_after (upload api s w path project zip_name))
     = calls w @ [UploadRequest (host s) (session_id s) (project_used w path project)
                   (abspath (cwd w) (zip_name_used (project_used w path project) zip_name)
                      @ ''.zip'')]"
proof -
  from upload_trace_start [where api = api, OF t d refl]
  obtain rest where
    "trace (world_after (upload api s w path project zip_name))
       = trace w @ [Archived (abspath (cwd w)
                       (zip_name_used (project_used w path project) zip_name) @ ''.zip'') path,
                    Call (UploadRequest (host s) (session_id s) (project_used w path project)
                       (abspath (cwd w)
                          (zip_name_used (project_used w path project) zip_name) @ ''.zip''))]
             @ rest
     \<and> requests_of rest = []" ..
  then show ?thesis by (simp add: calls_def requests_of_append)
qed

lemma upload_nothing_there:
  assumes t: "truthy (session_id s)" and d: "path \<notin> dirs w"
    and n: "\<not> not_a_directory w path"
  shows "upload api s w path project zip_name
           = (Inr False, s,
              emit (LogError (PStr (''[Errno 2] No such file or directory: '' @ path))) w)"
  using t d n by (simp add: upload_def Let_def make_archive_def)

lemma upload_not_a_directory:
  assumes t: "truthy (session_id s)" and d: "path \<notin> dirs w"
    and n: "not_a_directory w path"
  shows "upload api s w path project zip_name
           = (Inl (NotADirectoryError (''[Errno 20] Not a directory: '' @ path)), s, w)"
  using t d n by (simp add: upload_def Let_def make_archive_def)

lemma upload_not_logged:
  "\<not> truthy (session_id s) \<Longrightarrow>
   upload api s w path project zip_name
     = (Inr False, s, emit (LogError (PStr ''You are not logged'')) w)"
  by (simp add: upload_def)

text \<open>
  C10, as stated, fails for \<open>upload\<close>: with a session id that is a non-empty text it still
  returns \<open>False\<close> without calling the request layer when nothing exists at the path to
  archive.
\<close>

theorem guard_counterexample:
  "truthy (session_id ex_logged)
   \<and> outcome (upload api_version ex_logged ex_world ''/nowhere'' None None) = Inr False
   \<and> calls (world_after (upload api_version ex_logged ex_world ''/nowhere'' None None))
       = calls ex_world"
proof -
  have t: "truthy (session_id ex_logged)" by (simp add: ex_logged_def)
  have d: "''/nowhere'' \<notin> dirs ex_world" by (simp add: ex_world_def)
  have n: "\<not> not_a_directory ex_world ''/nowhere''"
    by (simp add: not_a_directory_def ex_world_def)
  from t show ?thesis
    unfolding upload_nothing_there [OF t d n]
    by (simp add: outcome_def world_after_def calls_emit)
qed

text \<open>
  C10, amended. The guard looks at the session id only, never at the host. \<open>schedule\<close>
  and \<open>execute\<close> return \<open>False\<close> without calling the request layer exactly when the stored
  session id is falsy. \<open>upload\<close> does so exactly when the session id is falsy or nothing
  exists at the path to archive, which is the one failure of the archiving step that it
  catches; when the session id is truthy and the path is not a directory because a
  regular file is there, \<open>NotADirectoryError\<close> reaches the caller and no request is made.
  It is the guard that rejects an upload (the only record added is the error
  \<open>You are not logged\<close>) exactly when the session id is falsy. \<open>None\<close> is falsy and a text
  is falsy exactly when it is empty, so a state with a non-empty session id and no host
  passes, and one with an empty session id does not.
\<close>

theorem guard_session_id_only:
  "((outcome (schedule api s w proj flow cron) = Inr False
       \<and> calls (world_after (schedule api s w proj flow cron)) = calls w)
      = (\<not> truthy (session_id s)))
   \<and> ((outcome (execute api s w proj flow) = Inr False
       \<and> calls (world_after (execute api s w proj flow)) = calls w)
      = (\<not> truthy (session_id s)))
   \<and> ((outcome (upload api s w path project zip_name) = Inr False
       \<and> calls (world_after (upload api s w path project zip_name)) = calls w)
      = (\<not> truthy (session_id s) \<or> (path \<notin> dirs w \<and> \<not> not_a_directory w path)))
   \<and> (truthy (session_id s) \<and> path \<notin> dirs w \<and> not_a_directory w path \<longrightarrow>
        outcome (upload api s w path project zip_name)
          = Inl (NotADirectoryError (''[Errno 20] Not a directory: '' @ path))
        \<and> calls (world_after (upload api s w path project zip_name)) = calls w)
   \<and> ((trace (world_after (upload api s w path project zip_name))
         = trace w @ [LogError (PStr ''You are not logged'')])
      = (\<not> truthy (session_id s)))
   \<and> \<not> truthy PNone \<and> truthy (PStr sid) = (sid \<noteq> [])"
proof (intro conjI impI)
  show "(outcome (schedule api s w proj flow cron) = Inr False
       \<and> calls (world_after (schedule api s w proj flow cron)) = calls w)
      = (\<not> truthy (session_id s))"
  proof (cases "truthy (session_id s)")
    case True
    then show ?thesis by (simp add: schedule_calls)
  next
    case False
    then show ?thesis
      by (simp add: schedule_def outcome_def world_after_def calls_emit)
  qed
  show "(outcome (execute api s w proj flow) = Inr False
       \<and> calls (world_after (execute api s w proj flow)) = calls w)
      = (\<not> truthy (session_id s))"
  proof (cases "truthy (session_id s)")
    case True
    then show ?thesis by (simp add: execute_calls)
  next
    case False
    then show ?thesis
      by (simp add: execute_def outcome_def world_after_def calls_emit)
  qed
  show "(outcome (upload api s w path project zip_name) = Inr False
       \<and> calls (world_after (upload api s w path project zip_name)) = calls w)
      = (\<not> truthy (session_id s) \<or> (path \<notin> dirs w \<and> \<not> not_a_directory w path))"
  proof (cases "truthy (session_id s)")
    case True
    show ?thesis
    proof (cases "path \<in> dirs w")
      case d: True
      with True show ?thesis by (simp add: upload_calls)
    next
      case d: False
      show ?thesis
      proof (cases "not_a_directory w path")
        case n: True
        with True d show ?thesis
          by (simp add: upload_not_a_directory outcome_def)
      next
        case n: False
        with True d show ?thesis
          by (simp add: upload_nothing_there outcome_def world_after_def calls_emit)
      qed
    qed
  next
    case False
    then show ?thesis
      by (simp add: upload_not_logged outcome_def world_after_def calls_emit)
  qed
  {
    assume h: "truthy (session_id s) \<and> path \<notin> dirs w \<and> not_a_directory w path"
    then have t: "truthy (session_id s)" and d: "path \<notin> dirs w"
      and n: "not_a_directory w path" by simp_all
    show "outcome (upload api s w path project zip_name)
          = Inl (NotADirectoryError (''[Errno 20] Not a directory: '' @ path))"
      by (simp add: upload_not_a_directory [OF t d n] outcome_def)
    show "calls (world_after (upload api s w path project zip_name)) = calls w"
      by (simp add: upload_not_a_directory [OF t d n] world_after_def)
  }
  show "(trace (world_after (upload api s w path project zip_name))
         = trace w @ [LogError (PStr ''You are not logged'')])
      = (\<not> truthy (session_id s))"
  proof (cases "truthy (session_id s)")
    case True
    show ?thesis
    proof (cases "path \<in> dirs w")
      case d: True
      from upload_trace_start [where api = api, OF True d refl]
      obtain rest where
        "trace (world_after (upload api s w path project zip_name))
       = trace w @ [Archived (abspath (cwd w)
                       (zip_name_used (project_used w path project) zip_name) @ ''.zip'') path,
                    Call (UploadRequest (host s) (session_id s) (project_used w path project)
                       (abspath (cwd w)
                          (zip_name_used (project_used w path project) zip_name) @ ''.zip''))]
             @ rest
         \<and> requests_of rest = []" ..
      with True show ?thesis by simp
    next
      case d: False
      show ?thesis
      proof (cases "not_a_directory w path")
        case n: True
        with True d show ?thesis
          by (simp add: upload_not_a_directory world_after_def)
      next
        case n: False
        with True d show ?thesis
          by (simp add: upload_nothing_there world_after_def emit_fields)
      qed
    qed
  next
    case False
    then show ?thesis
      by (simp add: upload_not_logged world_after_def emit_fields)
  qed
  show "\<not> truthy PNone" by simp
  show "truthy (PStr sid) = (sid \<noteq> [])" by simp
qed

theorem guard_session_id_only_witness:
  "host ex_no_host = PNone \<and> truthy (session_id ex_no_host)
   \<and> calls (world_after (schedule api_bad_cron ex_no_host ex_world ''p'' ''f'' ''x''))
       \<noteq> calls ex_world
   \<and> calls (world_after (execute api_error ex_no_host ex_world ''p'' ''f'')) \<noteq> calls ex_world
   \<and> \<not> truthy (session_id ex_empty_id)
   \<and> outcome (schedule api_bad_cron ex_empty_id ex_world ''p'' ''f'' ''x'') = Inr False
   \<and> calls (world_after (schedule api_bad_cron ex_empty_id ex_world ''p'' ''f'' ''x''))
       = calls ex_world
   \<and> outcome (upload api_version ex_empty_id ex_world ''/tmp/myproj'' None None) = Inr False
   \<and> calls (world_after (upload api_version ex_empty_id ex_world ''/tmp/myproj'' None None))
       = calls ex_world
   \<and> outcome (upload api_version ex_logged ex_world ''/nowhere'' None None) = Inr False
   \<and> ''/tmp/afile'' \<notin> dirs ex_file_world \<and> not_a_directory ex_file_world ''/tmp/afile''
   \<and> outcome (upload api_version ex_logged ex_file_world ''/tmp/afile'' None None)
        = Inl (NotADirectoryError ''[Errno 20] Not a directory: /tmp/afile'')
   \<and> calls (world_after (upload api_version ex_logged ex_file_world ''/tmp/afile'' None None))
        = calls ex_file_world"
proof -
  have h: "host ex_no_host = PNone" and t: "truthy (session_id ex_no_host)"
    by (simp_all add: ex_no_host_def)
  have f: "\<not> truthy (session_id ex_empty_id)" by (simp add: ex_empty_id_def)
  have d: "''/nowhere'' \<notin> dirs ex_world" by (simp add: ex_world_def)
  note th = guard_session_id_only [where w = ex_world and proj = "''p''" and flow = "''f''"
      and cron = "''x''" and project = None and zip_name = None]
  have a: "outcome (schedule api_bad_cron ex_no_host ex_world ''p'' ''f'' ''x'') \<noteq> Inr False
       \<or> calls (world_after (schedule api_bad_cron ex_no_host ex_world ''p'' ''f'' ''x''))
       \<noteq> calls ex_world"
    using th [where api = api_bad_cron and s = ex_no_host, THEN conjunct1] t by simp
  have a': "outcome (schedule api_bad_cron ex_no_host ex_world ''p'' ''f'' ''x'') = Inr False"
    by (simp add: schedule_def outcome_def Let_def api_bad_cron_def ex_no_host_def)
  have b: "outcome (execute api_error ex_no_host ex_world ''p'' ''f'') \<noteq> Inr False
       \<or> calls (world_after (execute api_error ex_no_host ex_world ''p'' ''f'')) \<noteq> calls ex_world"
    using th [where api = api_error and s = ex_no_host, THEN conjunct2, THEN conjunct1] t by simp
  have b': "outcome (execute api_error ex_no_host ex_world ''p'' ''f'') = Inr False"
    by (simp add: execute_def outcome_def Let_def api_error_def ex_no_host_def)
  have c: "outcome (schedule api_bad_cron ex_empty_id ex_world ''p'' ''f'' ''x'') = Inr False
   \<and> calls (world_after (schedule api_bad_cron ex_empty_id ex_world ''p'' ''f'' ''x''))
       = calls ex_world"
    using th [where api = api_bad_cron and s = ex_empty_id, THEN conjunct1] f by simp
  have e: "outcome (upload api_version ex_empty_id ex_world ''/tmp/myproj'' None None) = Inr False
   \<and> calls (world_after (upload api_version ex_empty_id ex_world ''/tmp/myproj'' None None))
       = calls ex_world"
    using th [where api = api_version and s = ex_empty_id and path = "''/tmp/myproj''",
        THEN conjunct2, THEN conjunct2, THEN conjunct1] f by simp
  have n: "\<not> not_a_directory ex_world ''/nowhere''"
    by (simp add: not_a_directory_def ex_world_def)
  have g: "outcome (upload api_version ex_logged ex_world ''/nowhere'' None None) = Inr False"
    using th [where api = api_version and s = ex_logged and path = "''/nowhere''",
        THEN conjunct2, THEN conjunct2, THEN conjunct1] d n by simp
  have tl: "truthy (session_id ex_logged)" by (simp add: ex_logged_def)
  have fd: "''/tmp/afile'' \<notin> dirs ex_file_world" by (simp add: ex_file_world_def)
  have fn: "not_a_directory ex_file_world ''/tmp/afile''"
    by (simp add: not_a_directory_def ex_file_world_def)
  have k: "outcome (upload api_version ex_logged ex_file_world ''/tmp/afile'' None None)
        = Inl (NotADirectoryError (''[Errno 20] Not a directory: '' @ ''/tmp/afile''))
   \<and> calls (world_after (upload api_version ex_logged ex_file_world ''/tmp/afile'' None None))
        = calls ex_file_world"
    by (rule guard_session_id_only [where api = api_version and s = ex_logged
          and w = ex_file_world and path = "''/tmp/afile''" and project = None
          and zip_name = None,
          THEN conjunct2, THEN conjunct2, THEN conjunct2, THEN conjunct1, THEN mp])
       (intro conjI tl fd fn)
  from h t f a a' b b' c e g fd fn k show ?thesis by simp
qed

end
